theory Spec2Isabelle
  imports Complex_Main
begin

section \<open>Data read and held by the App component\<close>

text \<open>
  A JSON field that holds a string, or is null or absent, is a \<open>string option\<close>
  (\<open>None\<close> for null and for absent). JavaScript's truthiness of such a value:
  null, undefined and the empty string are falsy, every other string is truthy.
\<close>

definition truthy :: "string option \<Rightarrow> bool" where
  "truthy v = (case v of None \<Rightarrow> False | Some s \<Rightarrow> s \<noteq> [])"

text \<open>
  A template literal renders a string as itself. Null renders as the text \<open>null\<close>; the
  component only builds ban values from truthy values, so that case is never a ban value.
\<close>

definition template :: "string option \<Rightarrow> string" where
  "template v = (case v of None \<Rightarrow> ''null'' | Some s \<Rightarrow> s)"

text \<open>One element of the \<open>data\<close> array of the catalog's response, with the requested fields.\<close>

record artwork =
  id' :: int
  title :: "string option"
  artist_title :: "string option"
  date_display :: "string option"
  image_id :: "string option"
  style_title :: "string option"
  place_of_origin :: "string option"
  medium_display :: "string option"

text \<open>The object built at \<open>const newItem = {...}\<close> and held in the \<open>item\<close> state variable.\<close>

record item =
  item_id :: int
  item_title :: "string option"
  artist :: "string option"
  date :: "string option"
  style :: "string option"
  place :: "string option"
  medium :: "string option"
  imageUrl :: string

text \<open>The four \<open>useState\<close> variables of the component.\<close>

record app =
  item :: "item option"
  loading :: bool
  error :: "string option"
  banList :: "string list"

definition initial :: app where
  "initial = \<lparr>item = None, loading = False, error = None, banList = []\<rparr>"

definition setItem :: "item \<Rightarrow> app \<Rightarrow> app" where
  "setItem v s = s\<lparr>item := Some v\<rparr>"

definition setLoading :: "bool \<Rightarrow> app \<Rightarrow> app" where
  "setLoading v s = s\<lparr>loading := v\<rparr>"

definition setError :: "string option \<Rightarrow> app \<Rightarrow> app" where
  "setError v s = s\<lparr>error := v\<rparr>"

definition setBanList :: "string list \<Rightarrow> app \<Rightarrow> app" where
  "setBanList v s = s\<lparr>banList := v\<rparr>"

section \<open>The ban filter\<close>

text \<open>
  \<open>banned bl prefix v\<close> is the test
  \<^verbatim>\<open>v && banList.includes(`prefix${v}`)\<close> of the filter callback, the prefix being
  \<open>artist:\<close>, \<open>style:\<close> or \<open>place:\<close>.
\<close>

definition banned :: "string list \<Rightarrow> string \<Rightarrow> string option \<Rightarrow> bool" where
  "banned bl prefix v = (truthy v \<and> prefix @ template v \<in> set bl)"

text \<open>The callback given to \<open>data.data.filter\<close>, with its four early returns in order.\<close>

definition keep :: "string list \<Rightarrow> artwork \<Rightarrow> bool" where
  "keep bl artwork =
     (if \<not> truthy (image_id artwork) then False
      else if banned bl ''artist:'' (artist_title artwork) then False
      else if banned bl ''style:'' (style_title artwork) then False
      else if banned bl ''place:'' (place_of_origin artwork) then False
      else True)"

definition filteredArtworks :: "string list \<Rightarrow> artwork list \<Rightarrow> artwork list" where
  "filteredArtworks bl data = filter (keep bl) data"

section \<open>Selection\<close>

text \<open>
  \<open>r\<close> is the value returned by \<open>Math.random()\<close>, a number with \<open>0 \<le> r < 1\<close>. The
  product with the length is taken exactly; for a list of length one it is exact in
  the machine's arithmetic too, since \<open>r * 1 = r\<close>.
\<close>

definition randomIndex :: "real \<Rightarrow> 'a list \<Rightarrow> int" where
  "randomIndex r filtered = \<lfloor>r * real (length filtered)\<rfloor>"

text \<open>Reading an array at an index: \<open>None\<close> stands for \<open>undefined\<close>, out of range.\<close>

definition at_index :: "'a list \<Rightarrow> int \<Rightarrow> 'a option" where
  "at_index xs i = (if 0 \<le> i \<and> i < int (length xs) then Some (xs ! nat i) else None)"

definition randomArtwork :: "real \<Rightarrow> 'a list \<Rightarrow> 'a option" where
  "randomArtwork r filtered = at_index filtered (randomIndex r filtered)"

definition newItem :: "artwork \<Rightarrow> item" where
  "newItem a =
     \<lparr>item_id = id' a,
      item_title = title a,
      artist = artist_title a,
      date = date_display a,
      style = style_title a,
      place = place_of_origin a,
      medium = medium_display a,
      imageUrl = ''https://www.artic.edu/iiif/2/'' @ template (image_id a)
                   @ ''/full/843,/0/default.jpg''\<rparr>"

section \<open>The refresh: fetchRandomArtwork\<close>

text \<open>
  What the two awaited calls deliver: either something in the \<open>try\<close> block throws
  before the data is looked at (\<open>Rejected\<close>, with the error's message), or the body
  parses to an object whose \<open>data\<close> field is an array of records, or is absent or
  null (\<open>Body None\<close>).
\<close>

datatype response = Rejected string | Body "artwork list option"

text \<open>
  The message of the TypeError raised by reading a property of \<open>undefined\<close>; its
  wording belongs to the engine. It is reached only with an index out of range.
\<close>

definition typeErrorMessage :: string where
  "typeErrorMessage = ''Cannot read properties of undefined''"

text \<open>The synchronous part before the first \<open>await\<close>.\<close>

definition fetchRandomArtwork_begin :: "app \<Rightarrow> app" where
  "fetchRandomArtwork_begin s = setError None (setLoading True s)"

text \<open>
  The part after the response has arrived. \<open>bl\<close> is the ban list the closure
  captured when the refresh was started. Every path ends with the \<open>finally\<close> block.
\<close>

definition fetchRandomArtwork_settle :: "string list \<Rightarrow> response \<Rightarrow> real \<Rightarrow> app \<Rightarrow> app" where
  "fetchRandomArtwork_settle bl resp r s =
     setLoading False
       (case resp of
          Rejected message \<Rightarrow> setError (Some (''Error fetching artwork: '' @ message)) s
        | Body d \<Rightarrow>
            (case d of
               None \<Rightarrow> setError (Some ''No artworks found. Please try again.'') s
             | Some arr \<Rightarrow>
                 if length arr > 0 then
                   (let filtered = filteredArtworks bl arr in
                    if length filtered = 0 then
                      setLoading False
                        (setError (Some ''No artworks found that match your criteria. Try removing some items from your ban list.'') s)
                    else
                      (case randomArtwork r filtered of
                         None \<Rightarrow> setError (Some (''Error fetching artwork: '' @ typeErrorMessage)) s
                       | Some a \<Rightarrow> setItem (newItem a) s))
                 else setError (Some ''No artworks found. Please try again.'') s))"

text \<open>A whole refresh during which no other event is handled.\<close>

definition fetchRandomArtwork :: "response \<Rightarrow> real \<Rightarrow> app \<Rightarrow> app" where
  "fetchRandomArtwork resp r s =
     fetchRandomArtwork_settle (banList s) resp r (fetchRandomArtwork_begin s)"

section \<open>The ban list: handleBanToggle\<close>

text \<open>
  \<open>handleBanToggle\<close> reads and writes the \<open>banList\<close> variable only, so it is a
  function from the list to the new list. Its value argument may be null (\<open>None\<close>).
\<close>

definition handleBanToggle :: "string \<Rightarrow> string option \<Rightarrow> string list \<Rightarrow> string list" where
  "handleBanToggle type value bl =
     (if \<not> truthy value then bl
      else
        (let banValue = type @ '':'' @ template value in
         if banValue \<in> set bl then filter (\<lambda>entry. entry \<noteq> banValue) bl
         else bl @ [banValue]))"

text \<open>\<open>String.prototype.split\<close> with a one-character separator.\<close>

fun split_at :: "char \<Rightarrow> string \<Rightarrow> string list" where
  "split_at sep [] = [[]]"
| "split_at sep (c # cs) =
     (if c = sep then [] # split_at sep cs
      else (case split_at sep cs of [] \<Rightarrow> [[c]] | p # ps \<Rightarrow> (c # p) # ps))"

definition getDisplayValue :: "string \<Rightarrow> string" where
  "getDisplayValue banValue =
     (let parts = split_at (CHR '':'') banValue in
      if length parts > 1 then parts ! 1 else banValue)"

definition getBanType :: "string \<Rightarrow> string" where
  "getBanType banValue =
     (let parts = split_at (CHR '':'') banValue in
      if length parts > 1 then parts ! 0 else ''unknown'')"

section \<open>Events of the user interface\<close>

text \<open>
  \<open>Discover\<close> is a refresh from the button (or from the effect run on mount) together
  with its settling; the three attribute clicks exist only while an item is shown and
  nothing is loading; \<open>ClickBan i\<close> is a click on the \<open>i\<close>-th entry of the ban list.
\<close>

datatype event =
    Discover response real
  | ClickArtist
  | ClickStyle
  | ClickPlace
  | ClickBan nat

definition clickAttribute :: "string \<Rightarrow> (item \<Rightarrow> string option) \<Rightarrow> app \<Rightarrow> app" where
  "clickAttribute type field s =
     (case item s of
        None \<Rightarrow> s
      | Some it \<Rightarrow>
          if loading s then s
          else setBanList (handleBanToggle type (field it) (banList s)) s)"

fun step :: "event \<Rightarrow> app \<Rightarrow> app" where
  "step (Discover resp r) s = fetchRandomArtwork resp r s"
| "step ClickArtist s = clickAttribute ''artist'' artist s"
| "step ClickStyle s = clickAttribute ''style'' style s"
| "step ClickPlace s = clickAttribute ''place'' place s"
| "step (ClickBan i) s =
     (if i < length (banList s) then
        (let entry = banList s ! i in
         setBanList
           (handleBanToggle (getBanType entry) (Some (getDisplayValue entry)) (banList s)) s)
      else s)"

fun run :: "event list \<Rightarrow> app \<Rightarrow> app" where
  "run [] s = s"
| "run (e # es) s = run es (step e s)"

text \<open>A sequence of toggle operations applied to a ban list, first to last.\<close>

fun toggles :: "(string \<times> string option) list \<Rightarrow> string list \<Rightarrow> string list" where
  "toggles [] bl = bl"
| "toggles ((type, value) # ops) bl = toggles ops (handleBanToggle type value bl)"

text \<open>
  The displayed record matches a ban entry: for one of the three categories, the
  record has a value and the entry made of the category and that value is in the list.
\<close>

definition itemBanned :: "string list \<Rightarrow> item \<Rightarrow> bool" where
  "itemBanned bl it =
     (banned bl ''artist:'' (artist it)
      \<or> banned bl ''style:'' (style it)
      \<or> banned bl ''place:'' (place it))"

definition displayedNotBanned :: "app \<Rightarrow> bool" where
  "displayedNotBanned s = (case item s of None \<Rightarrow> True | Some it \<Rightarrow> \<not> itemBanned (banList s) it)"

section \<open>Records used in the concrete evaluations\<close>

definition monet :: artwork where
  "monet = \<lparr>id' = 1, title = Some ''Water Lilies'', artist_title = Some ''Monet'',
            date_display = None, image_id = Some ''x'', style_title = Some ''Impressionism'',
            place_of_origin = Some ''France'', medium_display = None\<rparr>"

definition degas :: artwork where
  "degas = \<lparr>id' = 2, title = None, artist_title = Some ''Degas'',
            date_display = None, image_id = Some ''y'', style_title = None,
            place_of_origin = None, medium_display = None\<rparr>"

definition showingMonet :: app where
  "showingMonet =
     \<lparr>item = Some (newItem monet), loading = False, error = None,
      banList = [''style:Cubism'']\<rparr>"

section \<open>Unfolding rules\<close>

lemmas setters = setItem_def setLoading_def setError_def setBanList_def

lemmas refresh_defs =
  fetchRandomArtwork_def fetchRandomArtwork_settle_def fetchRandomArtwork_begin_def

lemmas eval_defs =
  setters initial_def filteredArtworks_def keep_def banned_def truthy_def template_def
  randomArtwork_def randomIndex_def at_index_def newItem_def

section \<open>The ban filter's output\<close>

lemma banned_iff:
  "banned bl prefix (Some v) \<longleftrightarrow> v \<noteq> [] \<and> prefix @ v \<in> set bl"
  by (simp add: banned_def truthy_def template_def)

lemma keep_iff:
  "keep bl a \<longleftrightarrow>
     truthy (image_id a)
     \<and> \<not> banned bl ''artist:'' (artist_title a)
     \<and> \<not> banned bl ''style:'' (style_title a)
     \<and> \<not> banned bl ''place:'' (place_of_origin a)"
  by (simp add: keep_def)

lemma kept_value_not_banned:
  assumes "keep bl a" and "v \<noteq> []"
  shows "''artist:'' @ v \<in> set bl \<Longrightarrow> artist_title a \<noteq> Some v"
    and "''style:'' @ v \<in> set bl \<Longrightarrow> style_title a \<noteq> Some v"
    and "''place:'' @ v \<in> set bl \<Longrightarrow> place_of_origin a \<noteq> Some v"
  using assms unfolding keep_iff by (auto simp only: banned_iff)

section \<open>Facts about handleBanToggle\<close>

lemma toggle_absent:
  "v \<noteq> [] \<Longrightarrow> type @ '':'' @ v \<notin> set bl \<Longrightarrow>
     handleBanToggle type (Some v) bl = bl @ [type @ '':'' @ v]"
  by (simp add: handleBanToggle_def truthy_def template_def)

lemma toggle_present:
  "v \<noteq> [] \<Longrightarrow> type @ '':'' @ v \<in> set bl \<Longrightarrow>
     handleBanToggle type (Some v) bl = filter (\<lambda>entry. entry \<noteq> type @ '':'' @ v) bl"
  by (simp add: handleBanToggle_def truthy_def template_def)

lemma toggle_falsy: "\<not> truthy value \<Longrightarrow> handleBanToggle type value bl = bl"
  by (simp add: handleBanToggle_def)

lemma toggle_cases:
  "handleBanToggle type value bl = bl
   \<or> (type @ '':'' @ template value \<notin> set bl
        \<and> handleBanToggle type value bl = bl @ [type @ '':'' @ template value])
   \<or> (type @ '':'' @ template value \<in> set bl
        \<and> handleBanToggle type value bl
            = filter (\<lambda>entry. entry \<noteq> type @ '':'' @ template value) bl)"
  by (simp add: handleBanToggle_def Let_def)

lemma toggle_keeps_other:
  assumes "e \<in> set bl" and "e \<noteq> type @ '':'' @ template value"
  shows "e \<in> set (handleBanToggle type value bl)"
  using assms by (simp add: handleBanToggle_def Let_def)

lemma filter_absent: "x \<notin> set xs \<Longrightarrow> filter (\<lambda>entry. entry \<noteq> x) xs = xs"
  by (induction xs) auto

lemma length_filter_distinct:
  "distinct xs \<Longrightarrow> x \<in> set xs \<Longrightarrow> length xs = length (filter (\<lambda>entry. entry \<noteq> x) xs) + 1"
  by (induction xs) (auto simp: filter_absent)

lemma distinct_toggle: "distinct bl \<Longrightarrow> distinct (handleBanToggle type value bl)"
  by (simp add: handleBanToggle_def Let_def)

lemma distinct_toggles: "distinct bl \<Longrightarrow> distinct (toggles ops bl)"
  by (induction ops bl rule: toggles.induct) (simp_all add: distinct_toggle)

text \<open>
  An entry built by the toggle has a non-empty value, so it is never a bare category
  followed by the separator.
\<close>

lemma entry_value_nonempty:
  "CHR '':'' \<notin> set c \<Longrightarrow> type @ '':'' @ v = c @ '':'' \<Longrightarrow> v = []"
proof (induction c arbitrary: type)
  case Nil
  then show ?case by (cases type) simp_all
next
  case (Cons x c)
  show ?case
  proof (cases type)
    case Nil
    with Cons.prems show ?thesis by simp
  next
    case (Cons y ys)
    with Cons.prems have "CHR '':'' \<notin> set c" "ys @ '':'' @ v = c @ '':''" by simp_all
    then show ?thesis by (rule Cons.IH)
  qed
qed

lemma toggle_no_empty_value:
  assumes "CHR '':'' \<notin> set c" and "c @ '':'' \<notin> set bl"
  shows "c @ '':'' \<notin> set (handleBanToggle type value bl)"
proof (cases "truthy value")
  case False
  with assms(2) show ?thesis by (simp only: toggle_falsy not_False_eq_True)
next
  case True
  then obtain v where v: "value = Some v" "v \<noteq> []"
    by (cases "value") (simp_all add: truthy_def)
  have ne: "type @ '':'' @ v \<noteq> c @ '':''"
    using entry_value_nonempty [OF assms(1), of type v] v(2) by blast
  show ?thesis
  proof (cases "type @ '':'' @ v \<in> set bl")
    case True
    have "set (filter (\<lambda>entry. entry \<noteq> type @ '':'' @ v) bl) \<subseteq> set bl"
      by (rule filter_is_subset)
    with assms(2) show ?thesis
      unfolding v(1) toggle_present [OF v(2) True] by blast
  next
    case False
    from assms(2) ne show ?thesis
      unfolding v(1) toggle_absent [OF v(2) False] by (simp only: set_append) auto
  qed
qed

lemma toggles_no_empty_value:
  "CHR '':'' \<notin> set c \<Longrightarrow> c @ '':'' \<notin> set bl \<Longrightarrow> c @ '':'' \<notin> set (toggles ops bl)"
  by (induction ops bl rule: toggles.induct)
     (simp_all add: toggle_no_empty_value del: append.simps)

lemma reachable_no_empty_value:
  "''artist:'' \<notin> set (toggles ops [])"
  "''style:'' \<notin> set (toggles ops [])"
  "''place:'' \<notin> set (toggles ops [])"
  using toggles_no_empty_value [of "''artist''" "[]" ops]
    toggles_no_empty_value [of "''style''" "[]" ops]
    toggles_no_empty_value [of "''place''" "[]" ops]
  by simp_all

section \<open>Facts about the refresh\<close>

lemma randomArtwork_mem: "randomArtwork r xs = Some a \<Longrightarrow> a \<in> set xs"
  by (auto simp: randomArtwork_def at_index_def split: if_splits)

lemma kept_not_itemBanned: "keep bl a \<Longrightarrow> \<not> itemBanned bl (newItem a)"
  by (simp add: keep_iff itemBanned_def newItem_def)

lemma refresh_banList: "banList (fetchRandomArtwork resp r s) = banList s"
  by (simp add: refresh_defs setters Let_def split: response.splits option.splits)

lemma floor_unit: "0 \<le> r \<Longrightarrow> r < 1 \<Longrightarrow> \<lfloor>r::real\<rfloor> = 0"
  by (simp add: floor_eq_iff)

section \<open>Facts about split\<close>

lemma split_at_nonempty: "split_at sep s \<noteq> []"
  by (induction s) (auto split: list.splits)

lemma split_at_append:
  "sep \<notin> set a \<Longrightarrow> split_at sep (a @ sep # b) = a # split_at sep b"
  by (induction a) auto

lemma hd_split_at: "hd (split_at sep s) = takeWhile (\<lambda>c. c \<noteq> sep) s"
  by (induction s) (auto split: list.splits simp: split_at_nonempty)

lemma getBanType_entry:
  "CHR '':'' \<notin> set category \<Longrightarrow> getBanType (category @ '':'' @ v) = category"
  using split_at_nonempty [of "CHR '':''" v]
  by (cases "split_at (CHR '':'') v") (simp_all add: getBanType_def split_at_append)

lemma getDisplayValue_entry:
  "CHR '':'' \<notin> set category \<Longrightarrow>
     getDisplayValue (category @ '':'' @ v) = takeWhile (\<lambda>c. c \<noteq> CHR '':'') v"
  using split_at_nonempty [of "CHR '':''" v] hd_split_at [of "CHR '':''" v]
  by (cases "split_at (CHR '':'') v") (simp_all add: getDisplayValue_def split_at_append)

lemma takeWhile_shorter:
  assumes "x \<in> set xs"
  shows "takeWhile (\<lambda>c. c \<noteq> x) xs \<noteq> xs"
proof
  assume "takeWhile (\<lambda>c. c \<noteq> x) xs = xs"
  then have "x \<in> set (takeWhile (\<lambda>c. c \<noteq> x) xs)" using assms by (simp only:)
  then show False by (auto dest: set_takeWhileD)
qed

lemma step_ClickBan:
  "i < length (banList s) \<Longrightarrow>
     banList (step (ClickBan i) s)
       = handleBanToggle (getBanType (banList s ! i)) (Some (getDisplayValue (banList s ! i)))
           (banList s)"
  by (simp add: setBanList_def Let_def)

section \<open>The ban list of the running application\<close>

text \<open>
  Whatever events the interface handles, its ban list is one that toggles build from
  the list it started with: a refresh never writes it, and every click is a toggle or
  nothing.
\<close>

lemma toggles_append: "toggles (xs @ ys) bl = toggles ys (toggles xs bl)"
  by (induction xs bl rule: toggles.induct) simp_all

lemma step_banList:
  "\<exists>ops. banList (step e s) = toggles ops (banList s)"
proof (cases e)
  case (Discover resp r)
  have "banList (step e s) = toggles [] (banList s)"
    by (simp add: Discover refresh_banList)
  then show ?thesis ..
next
  case ClickArtist
  show ?thesis
  proof (cases "item s")
    case None
    have "banList (step e s) = toggles [] (banList s)"
      by (simp add: ClickArtist clickAttribute_def None)
    then show ?thesis ..
  next
    case (Some it)
    have "banList (step e s) = toggles (if loading s then [] else [(''artist'', artist it)]) (banList s)"
      by (simp add: ClickArtist clickAttribute_def Some setBanList_def)
    then show ?thesis ..
  qed
next
  case ClickStyle
  show ?thesis
  proof (cases "item s")
    case None
    have "banList (step e s) = toggles [] (banList s)"
      by (simp add: ClickStyle clickAttribute_def None)
    then show ?thesis ..
  next
    case (Some it)
    have "banList (step e s) = toggles (if loading s then [] else [(''style'', style it)]) (banList s)"
      by (simp add: ClickStyle clickAttribute_def Some setBanList_def)
    then show ?thesis ..
  qed
next
  case ClickPlace
  show ?thesis
  proof (cases "item s")
    case None
    have "banList (step e s) = toggles [] (banList s)"
      by (simp add: ClickPlace clickAttribute_def None)
    then show ?thesis ..
  next
    case (Some it)
    have "banList (step e s) = toggles (if loading s then [] else [(''place'', place it)]) (banList s)"
      by (simp add: ClickPlace clickAttribute_def Some setBanList_def)
    then show ?thesis ..
  qed
next
  case (ClickBan i)
  have "banList (step e s)
      = toggles (if i < length (banList s)
                 then [(getBanType (banList s ! i), Some (getDisplayValue (banList s ! i)))]
                 else []) (banList s)"
    by (simp add: ClickBan setBanList_def Let_def)
  then show ?thesis ..
qed

lemma run_banList: "\<exists>ops. banList (run es s) = toggles ops (banList s)"
proof (induction es arbitrary: s)
  case Nil
  have "banList (run [] s) = toggles [] (banList s)" by simp
  then show ?case ..
next
  case (Cons e es)
  obtain xs where xs: "banList (step e s) = toggles xs (banList s)"
    using step_banList by blast
  obtain ys where ys: "banList (run es (step e s)) = toggles ys (banList (step e s))"
    using Cons.IH by blast
  have "banList (run (e # es) s) = toggles (xs @ ys) (banList s)"
    by (simp add: xs ys toggles_append)
  then show ?case ..
qed

section \<open>The claims\<close>

text \<open>
  C1. For every batch and every ban list, every record that the ban filter lets
  through has a non-empty image reference, and its artist, style and place of origin
  differ from the value of every ban entry of that category in the list. A ban entry is
  the text of a category, the separator and a non-empty value, which is how
  \<open>handleBanToggle\<close> builds them. The first part holds for any list of strings; the
  second part says that for a list built by toggles from the empty list the restriction
  to non-empty values can be dropped, since no such list holds an entry with an empty
  value.
\<close>

theorem filteredArtworks_sound:
  "(\<forall>a \<in> set (filteredArtworks bl data).
      truthy (image_id a)
      \<and> (\<forall>v. v \<noteq> [] \<longrightarrow> ''artist:'' @ v \<in> set bl \<longrightarrow> artist_title a \<noteq> Some v)
      \<and> (\<forall>v. v \<noteq> [] \<longrightarrow> ''style:'' @ v \<in> set bl \<longrightarrow> style_title a \<noteq> Some v)
      \<and> (\<forall>v. v \<noteq> [] \<longrightarrow> ''place:'' @ v \<in> set bl \<longrightarrow> place_of_origin a \<noteq> Some v))
   \<and> (\<forall>a \<in> set (filteredArtworks (toggles ops []) data).
      (\<forall>v. ''artist:'' @ v \<in> set (toggles ops []) \<longrightarrow> artist_title a \<noteq> Some v)
      \<and> (\<forall>v. ''style:'' @ v \<in> set (toggles ops []) \<longrightarrow> style_title a \<noteq> Some v)
      \<and> (\<forall>v. ''place:'' @ v \<in> set (toggles ops []) \<longrightarrow> place_of_origin a \<noteq> Some v))"
proof (intro conjI ballI allI impI)
  fix a assume "a \<in> set (filteredArtworks bl data)"
  then have k: "keep bl a" by (simp add: filteredArtworks_def)
  then show "truthy (image_id a)" by (simp add: keep_iff)
  fix v :: string assume v: "v \<noteq> []"
  show "artist_title a \<noteq> Some v" if "''artist:'' @ v \<in> set bl"
    using k v that by (rule kept_value_not_banned)
  show "style_title a \<noteq> Some v" if "''style:'' @ v \<in> set bl"
    using k v that by (rule kept_value_not_banned)
  show "place_of_origin a \<noteq> Some v" if "''place:'' @ v \<in> set bl"
    using k v that by (rule kept_value_not_banned)
next
  fix a v assume "a \<in> set (filteredArtworks (toggles ops []) data)"
  then have k: "keep (toggles ops []) a" by (simp add: filteredArtworks_def)
  show "artist_title a \<noteq> Some v" if m: "''artist:'' @ v \<in> set (toggles ops [])"
  proof (cases "v = []")
    case True with m reachable_no_empty_value(1) [of ops] show ?thesis by simp
  next
    case False with k show ?thesis using m by (rule kept_value_not_banned)
  qed
  show "style_title a \<noteq> Some v" if m: "''style:'' @ v \<in> set (toggles ops [])"
  proof (cases "v = []")
    case True with m reachable_no_empty_value(2) [of ops] show ?thesis by simp
  next
    case False with k show ?thesis using m by (rule kept_value_not_banned)
  qed
  show "place_of_origin a \<noteq> Some v" if m: "''place:'' @ v \<in> set (toggles ops [])"
  proof (cases "v = []")
    case True with m reachable_no_empty_value(3) [of ops] show ?thesis by simp
  next
    case False with k show ?thesis using m by (rule kept_value_not_banned)
  qed
qed

text \<open>
  The scenario of the specification: Monet is banned, so of the two records only the
  one by Degas is left; the ban list is the one the toggle builds.
\<close>

theorem filteredArtworks_sound_witness:
  "toggles [(''artist'', Some ''Monet'')] [] = [''artist:Monet'']
   \<and> filteredArtworks [''artist:Monet''] [monet, degas] = [degas]
   \<and> truthy (image_id degas)
   \<and> artist_title degas \<noteq> Some ''Monet''"
  using filteredArtworks_sound
    [of "[''artist:Monet'']" "[monet, degas]" "[(''artist'', Some ''Monet'')]"]
  by (simp add: filteredArtworks_def keep_def banned_def truthy_def template_def
        handleBanToggle_def monet_def degas_def)

text \<open>
  C8. For a filtered batch of exactly one record and a random draw \<open>r\<close> with
  \<open>0 \<le> r < 1\<close>, the computed index is 0 and the selection is that one record.
\<close>

theorem choose_single:
  "0 \<le> r \<Longrightarrow> r < 1 \<Longrightarrow> length filtered = 1 \<Longrightarrow>
     randomIndex r filtered = 0 \<and> randomArtwork r filtered = Some (filtered ! 0)"
  by (simp add: randomArtwork_def randomIndex_def at_index_def floor_unit)

theorem choose_single_witness:
  "(0::real) \<le> 1/2 \<and> (1/2::real) < 1 \<and> length [degas] = 1
   \<and> randomIndex (1/2) [degas] = 0 \<and> randomArtwork (1/2) [degas] = Some degas"
  using choose_single [of "1/2" "[degas]"] by simp

text \<open>
  C4. A refresh whose fetch succeeds tells the two empty outcomes apart: with the
  data array absent or empty the error is the message that no artworks were found; with
  a non-empty array of which the filter leaves nothing, the error is the other message,
  which asks to remove items from the ban list.
\<close>

theorem empty_outcomes_distinguished:
  "error (fetchRandomArtwork (Body None) r s) = Some ''No artworks found. Please try again.''
   \<and> error (fetchRandomArtwork (Body (Some [])) r s)
       = Some ''No artworks found. Please try again.''
   \<and> (arr \<noteq> [] \<and> filteredArtworks (banList s) arr = [] \<longrightarrow>
        error (fetchRandomArtwork (Body (Some arr)) r s)
          = Some ''No artworks found that match your criteria. Try removing some items from your ban list.''
        \<and> error (fetchRandomArtwork (Body (Some arr)) r s)
          \<noteq> Some ''No artworks found. Please try again.'')"
  by (simp add: refresh_defs setters)

theorem empty_outcomes_distinguished_witness:
  "[monet] \<noteq> []
   \<and> filteredArtworks (banList (initial\<lparr>banList := [''artist:Monet'']\<rparr>)) [monet] = []
   \<and> error (fetchRandomArtwork (Body (Some [monet])) (1/2) (initial\<lparr>banList := [''artist:Monet'']\<rparr>))
       = Some ''No artworks found that match your criteria. Try removing some items from your ban list.''"
  using empty_outcomes_distinguished
    [of "1/2" "initial\<lparr>banList := [''artist:Monet'']\<rparr>" "[monet]"]
  by (simp add: eval_defs monet_def)

text \<open>
  C6. A refresh that ends with an error (a thrown fetch or parse error, an empty
  batch, or nothing left after the filter) leaves the displayed record and the ban list
  as they were: the state after it is the state before it with the loading flag false
  and the error set.
\<close>

theorem error_outcome_frame:
  "error (fetchRandomArtwork resp r s) \<noteq> None \<Longrightarrow>
     fetchRandomArtwork resp r s
       = s\<lparr>loading := False, error := error (fetchRandomArtwork resp r s)\<rparr>
     \<and> item (fetchRandomArtwork resp r s) = item s
     \<and> banList (fetchRandomArtwork resp r s) = banList s"
  by (auto simp: refresh_defs setters Let_def split: response.splits option.splits if_splits)

theorem error_outcome_frame_witness:
  "error (fetchRandomArtwork (Rejected ''Failed to fetch'') (1/2) showingMonet)
     = Some ''Error fetching artwork: Failed to fetch''
   \<and> item (fetchRandomArtwork (Rejected ''Failed to fetch'') (1/2) showingMonet)
       = Some (newItem monet)
   \<and> banList (fetchRandomArtwork (Rejected ''Failed to fetch'') (1/2) showingMonet)
       = [''style:Cubism'']"
  using error_outcome_frame [of "Rejected ''Failed to fetch''" "1/2" showingMonet]
  by (simp add: refresh_defs setters showingMonet_def)

text \<open>
  C10. Whatever path the refresh takes once the response has settled (a selection, an
  empty batch, nothing left after the filter, a caught error), and whatever ban list it
  captured, it ends with the loading flag false.
\<close>

theorem refresh_ends_loading:
  "loading (fetchRandomArtwork_settle bl resp r s) = False
   \<and> loading (fetchRandomArtwork resp r s) = False"
  by (simp add: refresh_defs setLoading_def)

text \<open>
  C2, as amended. Right after a refresh that selects a record, with no other event
  between its start and its settling, a record is displayed and it matches no entry of
  the ban list. Later toggles do not keep this: a click on an attribute of the displayed
  record bans its value while the record stays on display.
\<close>

theorem selected_not_banned:
  assumes "error (fetchRandomArtwork resp r s) = None"
  shows "(\<exists>a. item (fetchRandomArtwork resp r s) = Some (newItem a))
         \<and> displayedNotBanned (fetchRandomArtwork resp r s)"
proof -
  from assms obtain arr a where
    sel: "randomArtwork r (filteredArtworks (banList s) arr) = Some a"
    and it: "item (fetchRandomArtwork resp r s) = Some (newItem a)"
    by (auto simp: refresh_defs setters Let_def split: response.splits option.splits if_splits)
  have "keep (banList s) a"
    using randomArtwork_mem [OF sel] by (simp add: filteredArtworks_def)
  then have "\<not> itemBanned (banList s) (newItem a)" by (rule kept_not_itemBanned)
  with it show ?thesis by (auto simp: displayedNotBanned_def refresh_banList)
qed

theorem selected_not_banned_witness:
  "error (fetchRandomArtwork (Body (Some [monet, degas])) (1/2)
            (initial\<lparr>banList := [''artist:Monet'']\<rparr>)) = None
   \<and> item (fetchRandomArtwork (Body (Some [monet, degas])) (1/2)
            (initial\<lparr>banList := [''artist:Monet'']\<rparr>)) = Some (newItem degas)
   \<and> displayedNotBanned (fetchRandomArtwork (Body (Some [monet, degas])) (1/2)
            (initial\<lparr>banList := [''artist:Monet'']\<rparr>))"
  using selected_not_banned
    [of "Body (Some [monet, degas])" "1/2" "initial\<lparr>banList := [''artist:Monet'']\<rparr>"]
  by (simp add: refresh_defs eval_defs monet_def degas_def)

text \<open>
  C2 as stated fails: the first refresh shows the record by Monet, a click on its
  artist bans Monet, and the record is still the displayed one.
\<close>

theorem displayed_banned_counterexample:
  "\<not> displayedNotBanned (run [Discover (Body (Some [monet])) (1/2), ClickArtist] initial)"
  by (simp add: refresh_defs eval_defs monet_def displayedNotBanned_def itemBanned_def
        clickAttribute_def handleBanToggle_def)

text \<open>
  C3, as amended. For a non-empty value, toggling the same pair twice gives a list with
  the same entries as before. It is the very same list when the pair was absent, and
  when the list has no duplicates and the pair was its last entry; when the pair was
  present, the result is the list without it followed by the pair, so an entry that
  was not last has moved to the end.
\<close>

theorem toggle_twice:
  assumes "v \<noteq> []"
  shows "set (handleBanToggle c (Some v) (handleBanToggle c (Some v) bl)) = set bl
    \<and> (c @ '':'' @ v \<notin> set bl \<longrightarrow>
          handleBanToggle c (Some v) (handleBanToggle c (Some v) bl) = bl)
    \<and> (c @ '':'' @ v \<in> set bl \<longrightarrow>
          handleBanToggle c (Some v) (handleBanToggle c (Some v) bl)
            = filter (\<lambda>entry. entry \<noteq> c @ '':'' @ v) bl @ [c @ '':'' @ v])
    \<and> (distinct bl \<and> bl \<noteq> [] \<and> last bl = c @ '':'' @ v \<longrightarrow>
          handleBanToggle c (Some v) (handleBanToggle c (Some v) bl) = bl)"
proof -
  let ?e = "c @ '':'' @ v"
  let ?twice = "handleBanToggle c (Some v) (handleBanToggle c (Some v) bl)"
  have absent: "?twice = bl" if "?e \<notin> set bl"
    using that assms by (simp add: toggle_absent toggle_present filter_absent)
  have present: "?twice = filter (\<lambda>entry. entry \<noteq> ?e) bl @ [?e]" if "?e \<in> set bl"
    using that assms by (simp add: toggle_present toggle_absent)
  have sets: "set ?twice = set bl"
  proof (cases "?e \<in> set bl")
    case True
    then show ?thesis by (auto simp: present [OF True])
  next
    case False
    then show ?thesis by (simp add: absent)
  qed
  have lst: "?twice = bl" if "distinct bl" "bl \<noteq> []" "last bl = ?e"
  proof -
    from that obtain xs where bl: "bl = xs @ [?e]"
      by (metis append_butlast_last_id)
    with that(1) have "?e \<notin> set xs" by simp
    then have "filter (\<lambda>entry. entry \<noteq> ?e) bl = xs"
      unfolding bl by (simp add: filter_absent)
    moreover have "?e \<in> set bl" unfolding bl by simp
    ultimately show ?thesis using present bl by simp
  qed
  from absent present sets lst show ?thesis by blast
qed

text \<open>The scenario of the specification: from the empty list, two toggles give it back.\<close>

theorem toggle_twice_witness:
  "''Impressionism'' \<noteq> []
   \<and> handleBanToggle ''style'' (Some ''Impressionism'') [] = [''style:Impressionism'']
   \<and> handleBanToggle ''style'' (Some ''Impressionism'')
       (handleBanToggle ''style'' (Some ''Impressionism'') []) = []"
  using toggle_twice [of "''Impressionism''" "''style''" "[]"]
  by (simp add: handleBanToggle_def truthy_def template_def)

text \<open>
  C3 as stated fails: with Monet banned first and Impressionism second, toggling Monet
  twice leaves Monet after Impressionism, which is not the list the toggles started from.
\<close>

theorem toggle_twice_counterexample:
  "handleBanToggle ''artist'' (Some ''Monet'')
     (handleBanToggle ''artist'' (Some ''Monet'') [''artist:Monet'', ''style:Impressionism''])
     = [''style:Impressionism'', ''artist:Monet'']
   \<and> handleBanToggle ''artist'' (Some ''Monet'')
     (handleBanToggle ''artist'' (Some ''Monet'') [''artist:Monet'', ''style:Impressionism''])
     \<noteq> [''artist:Monet'', ''style:Impressionism'']"
  by (simp add: handleBanToggle_def truthy_def template_def)

text \<open>
  C5. The component keeps no history: the state has the four variables above and
  nothing else, and a successful refresh overwrites the displayed record. After showing
  the record by Monet and then the one by Degas, the state is the one reached by showing
  Degas alone, so nothing of the first record is kept.
\<close>

theorem no_session_history:
  "run [Discover (Body (Some [monet])) (1/2), Discover (Body (Some [degas])) (1/2)] initial
     = run [Discover (Body (Some [degas])) (1/2)] initial
   \<and> item (run [Discover (Body (Some [monet])) (1/2), Discover (Body (Some [degas])) (1/2)]
             initial)
     = Some (newItem degas)"
  by (simp add: refresh_defs eval_defs monet_def degas_def)

text \<open>
  C7. Every ban list built from the empty list by toggles has no duplicate entry; the
  ban list of the application, after any events from its initial state, is such a list
  and has none either. One more toggle keeps the list free of duplicates: it leaves the
  list as it is, or appends an entry that was not in it, or removes an entry that was
  in it and shortens the list by exactly one.
\<close>

theorem banList_distinct:
  "distinct (toggles ops [])
   \<and> distinct (banList (run es initial))
   \<and> distinct (handleBanToggle type value (toggles ops []))
   \<and> (handleBanToggle type value (toggles ops []) = toggles ops []
      \<or> (type @ '':'' @ template value \<notin> set (toggles ops [])
           \<and> handleBanToggle type value (toggles ops [])
               = toggles ops [] @ [type @ '':'' @ template value])
      \<or> (type @ '':'' @ template value \<in> set (toggles ops [])
           \<and> handleBanToggle type value (toggles ops [])
               = filter (\<lambda>entry. entry \<noteq> type @ '':'' @ template value) (toggles ops [])
           \<and> length (toggles ops []) = length (handleBanToggle type value (toggles ops [])) + 1))"
proof -
  have d: "distinct (toggles ops [])" by (simp add: distinct_toggles)
  obtain ops' where "banList (run es initial) = toggles ops' (banList initial)"
    using run_banList by blast
  then have app: "distinct (banList (run es initial))"
    by (simp add: initial_def distinct_toggles)
  have one: "handleBanToggle type value (toggles ops []) = toggles ops []
      \<or> (type @ '':'' @ template value \<notin> set (toggles ops [])
           \<and> handleBanToggle type value (toggles ops [])
               = toggles ops [] @ [type @ '':'' @ template value])
      \<or> (type @ '':'' @ template value \<in> set (toggles ops [])
           \<and> handleBanToggle type value (toggles ops [])
               = filter (\<lambda>entry. entry \<noteq> type @ '':'' @ template value) (toggles ops [])
           \<and> length (toggles ops []) = length (handleBanToggle type value (toggles ops [])) + 1)"
    using toggle_cases [of type "value" "toggles ops []"]
      length_filter_distinct [OF d, of "type @ '':'' @ template value"]
    by auto
  from d app distinct_toggle [OF d] one show ?thesis by (intro conjI)
qed

theorem banList_distinct_witness:
  "toggles [(''artist'', Some ''Monet''), (''style'', Some ''Impressionism'')] []
     = [''artist:Monet'', ''style:Impressionism'']
   \<and> distinct [''artist:Monet'', ''style:Impressionism'']
   \<and> handleBanToggle ''artist'' (Some ''Monet'') [''artist:Monet'', ''style:Impressionism'']
     = [''style:Impressionism'']"
  using banList_distinct
    [of "[(''artist'', Some ''Monet''), (''style'', Some ''Impressionism'')]" "[]"
        "''artist''" "Some ''Monet''"]
  by (simp add: handleBanToggle_def truthy_def template_def)

text \<open>
  C9. Take an entry of the ban list made of a category without a colon, the colon, and
  a non-empty value. The type read back from it is the category. If the value has no
  colon, the display value read back is the value, and a click on the entry removes it
  from the list. If the value has a colon, the display value is only the part of the
  value before its first colon, which differs from the value, and after the click the
  entry is still in the list.
\<close>

theorem ban_entry_click:
  assumes "CHR '':'' \<notin> set category" and "v \<noteq> []"
    and "i < length (banList s)" and "banList s ! i = category @ '':'' @ v"
  shows "getBanType (category @ '':'' @ v) = category
    \<and> (CHR '':'' \<notin> set v \<longrightarrow>
         getDisplayValue (category @ '':'' @ v) = v
         \<and> banList (step (ClickBan i) s)
             = filter (\<lambda>entry. entry \<noteq> category @ '':'' @ v) (banList s)
         \<and> category @ '':'' @ v \<notin> set (banList (step (ClickBan i) s)))
    \<and> (CHR '':'' \<in> set v \<longrightarrow>
         getDisplayValue (category @ '':'' @ v) = takeWhile (\<lambda>c. c \<noteq> CHR '':'') v
         \<and> getDisplayValue (category @ '':'' @ v) \<noteq> v
         \<and> category @ '':'' @ v \<in> set (banList (step (ClickBan i) s)))"
proof -
  let ?e = "category @ '':'' @ v"
  let ?B = "banList s"
  let ?shown = "takeWhile (\<lambda>c. c \<noteq> CHR '':'') v"
  have mem: "?e \<in> set ?B"
    using assms(3,4) by (metis nth_mem)
  have ty: "getBanType ?e = category"
    using assms(1) by (rule getBanType_entry)
  have dv: "getDisplayValue ?e = ?shown"
    using assms(1) by (rule getDisplayValue_entry)
  have click: "banList (step (ClickBan i) s) = handleBanToggle category (Some ?shown) ?B"
    using assms(3) by (simp only: step_ClickBan assms(4) ty dv)
  have plain: "getDisplayValue ?e = v
      \<and> banList (step (ClickBan i) s) = filter (\<lambda>entry. entry \<noteq> ?e) ?B
      \<and> ?e \<notin> set (banList (step (ClickBan i) s))" if "CHR '':'' \<notin> set v"
  proof -
    from that have tw: "?shown = v" by auto
    have t: "handleBanToggle category (Some v) ?B = filter (\<lambda>entry. entry \<noteq> ?e) ?B"
      using assms(2) mem by (rule toggle_present)
    have c: "banList (step (ClickBan i) s) = filter (\<lambda>entry. entry \<noteq> ?e) ?B"
      using click unfolding tw t .
    have "?e \<notin> set (filter (\<lambda>entry. entry \<noteq> ?e) ?B)" by simp
    then have "?e \<notin> set (banList (step (ClickBan i) s))" unfolding c .
    moreover have "getDisplayValue ?e = v" using dv unfolding tw .
    ultimately show ?thesis using c by blast
  qed
  have colon: "getDisplayValue ?e = ?shown
      \<and> getDisplayValue ?e \<noteq> v
      \<and> ?e \<in> set (banList (step (ClickBan i) s))" if "CHR '':'' \<in> set v"
  proof -
    from that have ne: "?shown \<noteq> v" by (rule takeWhile_shorter)
    have "?e \<noteq> category @ '':'' @ template (Some ?shown)"
    proof
      assume "?e = category @ '':'' @ template (Some ?shown)"
      then have "v = ?shown"
        by (simp only: template_def option.case same_append_eq)
      from ne this [symmetric] show False by (rule notE)
    qed
    with mem have "?e \<in> set (handleBanToggle category (Some ?shown) ?B)"
      by (rule toggle_keeps_other)
    then have "?e \<in> set (banList (step (ClickBan i) s))" unfolding click .
    moreover have "getDisplayValue ?e \<noteq> v" unfolding dv by (rule ne)
    ultimately show ?thesis using dv by blast
  qed
  from ty plain colon show ?thesis by blast
qed

text \<open>
  One entry of each kind: the click on \<open>artist:Monet\<close> empties the list, the click on
  an entry whose value has a colon adds a second entry and keeps the first.
\<close>

theorem ban_entry_click_witness:
  "CHR '':'' \<notin> set ''artist'' \<and> ''Monet'' \<noteq> []
   \<and> banList (initial\<lparr>banList := [''artist:Monet'']\<rparr>) ! 0 = ''artist'' @ '':'' @ ''Monet''
   \<and> getBanType ''artist:Monet'' = ''artist''
   \<and> getDisplayValue ''artist:Monet'' = ''Monet''
   \<and> banList (step (ClickBan 0) (initial\<lparr>banList := [''artist:Monet'']\<rparr>)) = []
   \<and> CHR '':'' \<in> set ''Paris: Montmartre''
   \<and> getDisplayValue ''place:Paris: Montmartre'' = ''Paris''
   \<and> banList (step (ClickBan 0) (initial\<lparr>banList := [''place:Paris: Montmartre'']\<rparr>))
       = [''place:Paris: Montmartre'', ''place:Paris'']"
  using ban_entry_click [of "''artist''" "''Monet''" 0 "initial\<lparr>banList := [''artist:Monet'']\<rparr>"]
    ban_entry_click [of "''place''" "''Paris: Montmartre''" 0
      "initial\<lparr>banList := [''place:Paris: Montmartre'']\<rparr>"]
  by (simp add: initial_def Let_def setBanList_def getBanType_def getDisplayValue_def
        handleBanToggle_def truthy_def template_def)

end
